theory Spec2Isabelle
  imports Complex_Main
begin

section \<open>Python values used by the ATM simulator\<close>

text \<open>
  The exceptions that the modelled code can raise. \<open>ValueError\<close> is the only one that
  \<open>validate_withdrawal\<close> catches; the others propagate to the web framework, which
  answers with the 500 page.
\<close>

datatype py_error = ValueError | OverflowError | KeyError | TypeError

subsection \<open>Floats\<close>

text \<open>
  A Python float is an IEEE binary64 value. A finite one is kept as the rational it
  denotes; the two infinities and NaN are separate constructors. The sign of zero is not
  kept: the code only compares a parsed zero with \<open>0\<close>, and a difference of two equal
  finite floats is \<open>+0.0\<close>.
\<close>

datatype pyfloat = Fin rat | PInf | NInf | NaN

function bit_length :: "int \<Rightarrow> int" where
  "bit_length n = (if n \<le> 0 then 0 else 1 + bit_length (n div 2))"
  by pat_completeness auto
termination
  by (relation "measure nat") auto

declare bit_length.simps [simp del]

definition pow2 :: "int \<Rightarrow> rat" where
  "pow2 e = (if 0 \<le> e then 2 ^ nat e else 1 / 2 ^ nat (- e))"

definition pow10 :: "int \<Rightarrow> rat" where
  "pow10 e = (if 0 \<le> e then 10 ^ nat e else 1 / 10 ^ nat (- e))"

text \<open>For a positive rational \<open>r\<close>, the exponent \<open>e\<close> with \<open>2^e \<le> r < 2^(e+1)\<close>.\<close>

definition floor_log2 :: "rat \<Rightarrow> int" where
  "floor_log2 r =
     (let (p, q) = quotient_of r;
          d = bit_length p - bit_length q
      in if pow2 d \<le> r then d else d - 1)"

definition round_half_even :: "rat \<Rightarrow> int" where
  "round_half_even r =
     (let f = \<lfloor>r\<rfloor>; d = r - of_int f
      in if d < 1 / 2 then f
         else if 1 / 2 < d then f + 1
         else if even f then f else f + 1)"

text \<open>
  Rounding of an exact value to binary64, to nearest with ties to even: 53 significant
  bits, the least exponent \<open>-1022\<close> (below it the spacing stays \<open>2^-1074\<close>), and
  overflow to an infinity from \<open>2^1024\<close> on.
\<close>

definition round_binary64 :: "rat \<Rightarrow> pyfloat" where
  "round_binary64 r =
     (if r = 0 then Fin 0
      else
        let a = \<bar>r\<bar>;
            e = max (floor_log2 a) (- 1022);
            q = pow2 (e - 52);
            v = of_int (round_half_even (a / q)) * q
        in if pow2 1024 \<le> v then (if 0 < r then PInf else NInf)
           else Fin (if 0 < r then v else - v))"

text \<open>\<open>float - float\<close>.\<close>

fun float_sub :: "pyfloat \<Rightarrow> pyfloat \<Rightarrow> pyfloat" where
  "float_sub (Fin x) (Fin y) = round_binary64 (x - y)"
| "float_sub NaN _ = NaN"
| "float_sub _ NaN = NaN"
| "float_sub PInf PInf = NaN"
| "float_sub NInf NInf = NaN"
| "float_sub PInf _ = PInf"
| "float_sub NInf _ = NInf"
| "float_sub (Fin x) PInf = NInf"
| "float_sub (Fin x) NInf = PInf"

text \<open>Conversion of a Python int to a float, as the mixed operators do it.\<close>

definition float_of_int :: "int \<Rightarrow> py_error + pyfloat" where
  "float_of_int a =
     (case round_binary64 (of_int a) of
        Fin r \<Rightarrow> Inr (Fin r)
      | _ \<Rightarrow> Inl OverflowError)"

text \<open>\<open>float - int\<close>, the operator behind \<open>session['balance'] -= amount\<close>.\<close>

definition float_sub_int :: "pyfloat \<Rightarrow> int \<Rightarrow> py_error + pyfloat" where
  "float_sub_int b a =
     (case float_of_int a of
        Inl e \<Rightarrow> Inl e
      | Inr fa \<Rightarrow> Inr (float_sub b fa))"

text \<open>\<open>f <= i\<close> for a float and an int; Python compares the exact values.\<close>

fun float_le_int :: "pyfloat \<Rightarrow> int \<Rightarrow> bool" where
  "float_le_int (Fin r) i = (r \<le> of_int i)"
| "float_le_int NInf i = True"
| "float_le_int PInf i = False"
| "float_le_int NaN i = False"

text \<open>\<open>f != i\<close> for a float and an int.\<close>

fun float_ne_int :: "pyfloat \<Rightarrow> int \<Rightarrow> bool" where
  "float_ne_int (Fin r) i = (r \<noteq> of_int i)"
| "float_ne_int _ i = True"

text \<open>\<open>i > f\<close> for an int and a float.\<close>

fun int_gt_float :: "int \<Rightarrow> pyfloat \<Rightarrow> bool" where
  "int_gt_float i (Fin r) = (r < of_int i)"
| "int_gt_float i NInf = True"
| "int_gt_float i PInf = False"
| "int_gt_float i NaN = False"

text \<open>
  \<open>int(f)\<close>: truncation towards zero; an infinity raises \<open>OverflowError\<close> and NaN
  raises \<open>ValueError\<close>.
\<close>

fun int_of_float :: "pyfloat \<Rightarrow> py_error + int" where
  "int_of_float (Fin r) = Inr (if 0 \<le> r then \<lfloor>r\<rfloor> else - \<lfloor>- r\<rfloor>)"
| "int_of_float PInf = Inl OverflowError"
| "int_of_float NInf = Inl OverflowError"
| "int_of_float NaN = Inl ValueError"

subsection \<open>Strings\<close>

text \<open>
  A string is a list of code points below 256. The pound sign of the messages is
  U+00A3.
\<close>

definition pound :: char where
  "pound = char_of (163 :: nat)"

definition code_point :: "char \<Rightarrow> nat" where
  "code_point c = of_char c"

definition is_ascii_digit :: "char \<Rightarrow> bool" where
  "is_ascii_digit c = (48 \<le> code_point c \<and> code_point c \<le> 57)"

text \<open>The C-locale \<open>isspace\<close> that the float parser strips with.\<close>

definition is_c_space :: "char \<Rightarrow> bool" where
  "is_c_space c = ((9 \<le> code_point c \<and> code_point c \<le> 13) \<or> code_point c = 32)"

text \<open>The Unicode white space among the code points below 256.\<close>

definition is_unicode_space :: "char \<Rightarrow> bool" where
  "is_unicode_space c =
     ((9 \<le> code_point c \<and> code_point c \<le> 13) \<or> (28 \<le> code_point c \<and> code_point c \<le> 32)
      \<or> code_point c = 133 \<or> code_point c = 160)"

text \<open>\<open>str.isdigit\<close> on one character: the ASCII digits and the superscripts 1, 2, 3.\<close>

definition char_isdigit :: "char \<Rightarrow> bool" where
  "char_isdigit c =
     (is_ascii_digit c \<or> code_point c = 178 \<or> code_point c = 179 \<or> code_point c = 185)"

text \<open>\<open>s.isdigit()\<close>: false on the empty string.\<close>

definition isdigit :: "string \<Rightarrow> bool" where
  "isdigit s = (s \<noteq> [] \<and> list_all char_isdigit s)"

definition to_lower :: "char \<Rightarrow> char" where
  "to_lower c = (if 65 \<le> code_point c \<and> code_point c \<le> 90 then char_of (code_point c + 32) else c)"

definition to_upper :: "char \<Rightarrow> char" where
  "to_upper c = (if 97 \<le> code_point c \<and> code_point c \<le> 122 then char_of (code_point c - 32) else c)"

definition is_ascii_letter :: "char \<Rightarrow> bool" where
  "is_ascii_letter c =
     ((65 \<le> code_point c \<and> code_point c \<le> 90) \<or> (97 \<le> code_point c \<and> code_point c \<le> 122))"

text \<open>
  \<open>s.title()\<close> on ASCII letters: a letter that follows a letter is lowered, any other
  letter is raised. The flag says whether the previous character was a letter.
\<close>

fun title_from :: "bool \<Rightarrow> string \<Rightarrow> string" where
  "title_from prev [] = []"
| "title_from prev (c # cs) =
     (if is_ascii_letter c
      then (if prev then to_lower c else to_upper c) # title_from True cs
      else c # title_from False cs)"

definition title :: "string \<Rightarrow> string" where
  "title s = title_from False s"

subsection \<open>Parsing a float from a string\<close>

definition digit_val :: "char \<Rightarrow> int" where
  "digit_val c = int (code_point c) - 48"

text \<open>The value of a run of decimal digits, most significant first.\<close>

definition digits_val :: "string \<Rightarrow> int" where
  "digits_val ds = foldl (\<lambda>n c. 10 * n + digit_val c) 0 ds"

text \<open>
  Non-ASCII white space becomes a blank before parsing; any other non-ASCII character
  becomes \<open>?\<close> and ends the string there. A string of ASCII only is taken as it is.
\<close>

fun transform_chars :: "string \<Rightarrow> string" where
  "transform_chars [] = []"
| "transform_chars (c # cs) =
     (if code_point c < 127 then c # transform_chars cs
      else if is_unicode_space c then CHR '' '' # transform_chars cs
      else [CHR ''?''])"

definition transform_decimal_and_space :: "string \<Rightarrow> string" where
  "transform_decimal_and_space s =
     (if list_all (\<lambda>c. code_point c < 128) s then s else transform_chars s)"

text \<open>
  An underscore is allowed only between two digits. The check runs over the whole
  string with the previous character at hand; the result is the string without its
  underscores, or \<open>None\<close>.
\<close>

fun strip_underscores :: "char option \<Rightarrow> string \<Rightarrow> string option" where
  "strip_underscores prev [] = (if prev = Some CHR ''_'' then None else Some [])"
| "strip_underscores prev (c # cs) =
     (if c = CHR ''_''
      then (case prev of
              None \<Rightarrow> None
            | Some p \<Rightarrow> if is_ascii_digit p then strip_underscores (Some c) cs else None)
      else if prev = Some CHR ''_'' \<and> \<not> is_ascii_digit c then None
      else map_option ((#) c) (strip_underscores (Some c) cs))"

definition parse_sign :: "string \<Rightarrow> bool \<times> string" where
  "parse_sign s =
     (case s of
        [] \<Rightarrow> (False, s)
      | c # cs \<Rightarrow> if c = CHR ''-'' then (True, cs) else if c = CHR ''+'' then (False, cs)
                  else (False, s))"

text \<open>\<open>inf\<close>, \<open>infinity\<close> and \<open>nan\<close> in any case, after the sign.\<close>

definition parse_inf_or_nan :: "string \<Rightarrow> pyfloat option" where
  "parse_inf_or_nan s =
     (let (neg, r) = parse_sign s; l = map to_lower r
      in if l = ''inf'' \<or> l = ''infinity'' then Some (if neg then NInf else PInf)
         else if l = ''nan'' then Some NaN
         else None)"

text \<open>
  The decimal form: digits, an optional point and digits, at least one digit in all, and
  an optional exponent, which counts only when it has a digit. Nothing may follow.
\<close>

definition parse_exponent :: "string \<Rightarrow> int \<times> string" where
  "parse_exponent s =
     (case s of
        [] \<Rightarrow> (0, s)
      | c # cs \<Rightarrow>
          if c = CHR ''e'' \<or> c = CHR ''E'' then
            (let (neg, r) = parse_sign cs;
                 ds = takeWhile is_ascii_digit r
             in if ds = [] then (0, s)
                else ((if neg then - digits_val ds else digits_val ds),
                      dropWhile is_ascii_digit r))
          else (0, s))"

definition parse_decimal :: "string \<Rightarrow> rat option" where
  "parse_decimal s =
     (let (neg, r0) = parse_sign s;
          ip = takeWhile is_ascii_digit r0;
          r1 = dropWhile is_ascii_digit r0;
          has_point = (r1 \<noteq> [] \<and> hd r1 = CHR ''.'');
          fp = (if has_point then takeWhile is_ascii_digit (tl r1) else []);
          r2 = (if has_point then dropWhile is_ascii_digit (tl r1) else r1)
      in if ip = [] \<and> fp = [] then None
         else
           (let (ex, r3) = parse_exponent r2;
                m = of_int (digits_val (ip @ fp)) * pow10 (ex - int (length fp))
            in if r3 \<noteq> [] then None else Some (if neg then - m else m)))"

definition strip_spaces :: "string \<Rightarrow> string" where
  "strip_spaces s = rev (dropWhile is_c_space (rev (dropWhile is_c_space s)))"

text \<open>
  \<open>float(s)\<close> for a string: \<open>ValueError\<close> when the string is not a float literal; a
  literal too large for binary64 gives an infinity, not an error.
\<close>

definition py_float :: "string \<Rightarrow> py_error + pyfloat" where
  "py_float s =
     (case (if CHR ''_'' \<in> set (transform_decimal_and_space s)
            then strip_underscores None (transform_decimal_and_space s)
            else Some (transform_decimal_and_space s)) of
        None \<Rightarrow> Inl ValueError
      | Some t \<Rightarrow>
          (let u = strip_spaces t
           in case parse_inf_or_nan u of
                Some f \<Rightarrow> Inr f
              | None \<Rightarrow>
                  (case parse_decimal u of
                     None \<Rightarrow> Inl ValueError
                   | Some r \<Rightarrow> Inr (round_binary64 r))))"

subsection \<open>Formatting with two decimals\<close>

definition digit_char :: "int \<Rightarrow> char" where
  "digit_char n = char_of (48 + n)"

text \<open>The decimal digits of an int that is not negative.\<close>

function str_int :: "int \<Rightarrow> string" where
  "str_int n = (if n < 10 then [digit_char n] else str_int (n div 10) @ [digit_char (n mod 10)])"
  by pat_completeness auto
termination
  by (relation "measure nat") auto

declare str_int.simps [simp del]

text \<open>\<open>f"{x:.2f}"\<close> for a float: the exact value rounded to hundredths, ties to even.\<close>

definition format_2f :: "pyfloat \<Rightarrow> string" where
  "format_2f f =
     (case f of
        NaN \<Rightarrow> ''nan''
      | PInf \<Rightarrow> ''inf''
      | NInf \<Rightarrow> ''-inf''
      | Fin r \<Rightarrow>
          (let n = round_half_even (\<bar>r\<bar> * 100)
           in (if r < 0 then ''-'' else '''') @ str_int (n div 100) @ ''.''
              @ [digit_char (n mod 100 div 10), digit_char (n mod 10)]))"

text \<open>\<open>f"{a:.2f}"\<close> for an int: the int is converted to a float first.\<close>

definition format_2f_int :: "int \<Rightarrow> py_error + string" where
  "format_2f_int a =
     (case float_of_int a of
        Inl e \<Rightarrow> Inl e
      | Inr f \<Rightarrow> Inr (format_2f f))"

section \<open>The application\<close>

subsection \<open>Configuration\<close>

definition DEFAULT_PIN :: string where
  "DEFAULT_PIN = ''1234''"

definition ADMIN_PASSWORD :: string where
  "ADMIN_PASSWORD = ''4321''"

text \<open>\<open>STARTING_BALANCE = 123.45\<close>: the binary64 value nearest to 123.45.\<close>

definition STARTING_BALANCE :: pyfloat where
  "STARTING_BALANCE = Fin (8687021468732621 / 70368744177664)"

subsection \<open>Responses\<close>

datatype json =
    JNull
  | JBool bool
  | JInt int
  | JFloat pyfloat
  | JStr string
  | JList "json list"
  | JObj "(string \<times> json) list"

text \<open>
  What a view produces: a JSON body with its HTTP status, a rendered template with its
  status, or an exception that leaves the view.
\<close>

datatype outcome =
    Response json nat
  | Template string nat
  | Raised py_error

definition jsonify :: "(string \<times> json) list \<Rightarrow> outcome" where
  "jsonify kvs = Response (JObj kvs) 200"

definition not_authorized :: outcome where
  "not_authorized = Response (JObj [(''error'', JStr ''Not authorized'')]) 401"

subsection \<open>The transaction file\<close>

record transaction =
  timestamp :: string
  tx_type :: string
  amount :: int
  balance_after :: pyfloat
  formatted :: string

definition transaction_json :: "transaction \<Rightarrow> json" where
  "transaction_json t =
     JObj [(''timestamp'', JStr (timestamp t)),
           (''type'', JStr (tx_type t)),
           (''amount'', JInt (amount t)),
           (''balance_after'', JFloat (balance_after t)),
           (''formatted'', JStr (formatted t))]"

text \<open>
  \<open>data/transactions.json\<close>: absent, present but not valid JSON, or holding a list of
  transactions.
\<close>

datatype transaction_file = Missing | Unreadable | Stored "transaction list"

definition load_transactions :: "transaction_file \<Rightarrow> transaction list" where
  "load_transactions f = (case f of Stored ts \<Rightarrow> ts | Unreadable \<Rightarrow> [] | Missing \<Rightarrow> [])"

definition save_transactions :: "transaction list \<Rightarrow> transaction_file" where
  "save_transactions ts = Stored ts"

text \<open>
  \<open>add_transaction\<close>; \<open>now\<close> is the formatted time of the call. The result is the new
  record with the file as rewritten.
\<close>

definition add_transaction ::
  "int \<Rightarrow> pyfloat \<Rightarrow> string \<Rightarrow> string \<Rightarrow> transaction_file
     \<Rightarrow> py_error + (transaction \<times> transaction_file)" where
  "add_transaction amt bal_after transaction_type now f =
     (let transactions = load_transactions f
      in case format_2f_int amt of
           Inl e \<Rightarrow> Inl e
         | Inr amt_str \<Rightarrow>
             (let tx = \<lparr> timestamp = now,
                         tx_type = transaction_type,
                         amount = amt,
                         balance_after = bal_after,
                         formatted = now @ '' | '' @ title transaction_type @ '' '' @ [pound]
                           @ amt_str @ '' | Balance '' @ [pound] @ format_2f bal_after \<rparr>
              in Inr (tx, save_transactions (transactions @ [tx]))))"

subsection \<open>The session\<close>

text \<open>The session is a dictionary; a key that is not set is \<open>None\<close>.\<close>

record session =
  pin :: "string option"
  balance :: "pyfloat option"
  logged_in :: "bool option"
  is_admin :: "bool option"
  pin_change_step :: "int option"
  new_pin :: "string option"

definition empty_session :: session where
  "empty_session =
     \<lparr> pin = None, balance = None, logged_in = None, is_admin = None,
       pin_change_step = None, new_pin = None \<rparr>"

text \<open>The truth value of \<open>session.get(key)\<close> for a key that holds a bool.\<close>

definition truthy :: "bool option \<Rightarrow> bool" where
  "truthy v = (v = Some True)"

definition set_default :: "'a option \<Rightarrow> 'a \<Rightarrow> 'a option" where
  "set_default v d = (case v of None \<Rightarrow> Some d | Some x \<Rightarrow> Some x)"

definition initialize_session :: "session \<Rightarrow> session" where
  "initialize_session s =
     s\<lparr> pin := set_default (pin s) DEFAULT_PIN,
        balance := set_default (balance s) STARTING_BALANCE,
        logged_in := set_default (logged_in s) False,
        is_admin := set_default (is_admin s) False,
        pin_change_step := set_default (pin_change_step s) 0 \<rparr>"

subsection \<open>Validation of a withdrawal\<close>

text \<open>The second component of the pair that \<open>validate_withdrawal\<close> returns.\<close>

datatype validation_result = Message string | Amount int

text \<open>\<open>try: body except ValueError: handler\<close>.\<close>

definition except_ValueError :: "py_error + 'a \<Rightarrow> 'a \<Rightarrow> py_error + 'a" where
  "except_ValueError body handler =
     (case body of Inl ValueError \<Rightarrow> Inr handler | Inl e \<Rightarrow> Inl e | Inr r \<Rightarrow> Inr r)"

definition validate_withdrawal_body ::
  "string \<Rightarrow> pyfloat \<Rightarrow> py_error + (bool \<times> validation_result)" where
  "validate_withdrawal_body amount_str bal =
     (case py_float amount_str of
        Inl e \<Rightarrow> Inl e
      | Inr amt \<Rightarrow>
          if float_le_int amt 0
          then Inr (False, Message (''Amount must be greater than '' @ [pound] @ ''0.''))
          else
            (case int_of_float amt of
               Inl e \<Rightarrow> Inl e
             | Inr i \<Rightarrow>
                 if float_ne_int amt i
                 then Inr (False, Message ''Please enter a whole number (e.g., 10, 20, 30).'')
                 else if i mod 10 \<noteq> 0
                 then Inr (False,
                        Message (''Please enter an amount in multiples of '' @ [pound] @ ''10.''))
                 else if int_gt_float i bal
                 then Inr (False,
                        Message (''Insufficient funds. Your balance is '' @ [pound]
                                 @ format_2f bal))
                 else Inr (True, Amount i)))"

definition validate_withdrawal ::
  "string \<Rightarrow> pyfloat \<Rightarrow> py_error + (bool \<times> validation_result)" where
  "validate_withdrawal amount_str bal =
     except_ValueError (validate_withdrawal_body amount_str bal)
       (False, Message ''Please enter a valid number.'')"

subsection \<open>Routes\<close>

definition index :: "session \<Rightarrow> outcome \<times> session" where
  "index s = (Template ''index.html'' 200, initialize_session s)"

definition api_login :: "string \<Rightarrow> session \<Rightarrow> transaction_file \<Rightarrow> outcome \<times> session" where
  "api_login pin_attempt s0 f =
     (let s = initialize_session s0
      in if pin_attempt = ADMIN_PASSWORD
         then (jsonify [(''success'', JBool True),
                        (''is_admin'', JBool True),
                        (''message'', JStr ''Admin login successful!'')],
               s\<lparr> logged_in := Some True, is_admin := Some True \<rparr>)
         else
           (case pin s of
              None \<Rightarrow> (Raised KeyError, s)
            | Some p \<Rightarrow>
                if pin_attempt = p
                then
                  (let s' = s\<lparr> logged_in := Some True, is_admin := Some False \<rparr>;
                       transactions = load_transactions f
                   in case balance s' of
                        None \<Rightarrow> (Raised KeyError, s')
                      | Some b \<Rightarrow>
                          (jsonify [(''success'', JBool True),
                                    (''is_admin'', JBool False),
                                    (''message'', JStr ''Login successful!''),
                                    (''transaction_count'', JInt (int (length transactions))),
                                    (''balance'', JFloat b)],
                           s'))
                else (jsonify [(''success'', JBool False),
                               (''message'',
                                JStr ''Incorrect PIN or password. Please try again.'')],
                      s)))"

definition api_balance :: "session \<Rightarrow> outcome" where
  "api_balance s =
     (if \<not> truthy (logged_in s) \<or> truthy (is_admin s) then not_authorized
      else case balance s of
             None \<Rightarrow> Raised KeyError
           | Some b \<Rightarrow> jsonify [(''balance'', JFloat b)])"

definition validation_json :: "validation_result \<Rightarrow> json" where
  "validation_json r = (case r of Message m \<Rightarrow> JStr m | Amount a \<Rightarrow> JInt a)"

definition api_withdraw ::
  "string \<Rightarrow> string \<Rightarrow> session \<Rightarrow> transaction_file
     \<Rightarrow> outcome \<times> session \<times> transaction_file" where
  "api_withdraw amount_str now s f =
     (if \<not> truthy (logged_in s) \<or> truthy (is_admin s) then (not_authorized, s, f)
      else
        case balance s of
          None \<Rightarrow> (Raised KeyError, s, f)
        | Some b \<Rightarrow>
            (case validate_withdrawal amount_str b of
               Inl e \<Rightarrow> (Raised e, s, f)
             | Inr (valid, result) \<Rightarrow>
                 if \<not> valid
                 then (jsonify [(''success'', JBool False),
                                (''message'', validation_json result)],
                       s, f)
                 else
                   (case result of
                      Message m \<Rightarrow> (Raised TypeError, s, f)
                    | Amount amt \<Rightarrow>
                        (case float_sub_int b amt of
                           Inl e \<Rightarrow> (Raised e, s, f)
                         | Inr b' \<Rightarrow>
                             (let s' = s\<lparr> balance := Some b' \<rparr>
                              in case add_transaction amt b' ''withdrawal'' now f of
                                   Inl e \<Rightarrow> (Raised e, s', f)
                                 | Inr (tx, f') \<Rightarrow>
                                     (case format_2f_int amt of
                                        Inl e \<Rightarrow> (Raised e, s', f')
                                      | Inr amt_str \<Rightarrow>
                                          (jsonify
                                             [(''success'', JBool True),
                                              (''message'',
                                               JStr (''Success! '' @ [pound] @ amt_str
                                                     @ '' withdrawn.'')),
                                              (''balance'', JFloat b'),
                                              (''transaction'', transaction_json tx)],
                                           s', f')))))))"

definition api_change_pin :: "string \<Rightarrow> session \<Rightarrow> outcome \<times> session" where
  "api_change_pin pin_input s =
     (if \<not> truthy (logged_in s) \<or> truthy (is_admin s) then (not_authorized, s)
      else
        let step = (case pin_change_step s of None \<Rightarrow> 0 | Some n \<Rightarrow> n)
        in if step = 0 then
             (case pin s of
                None \<Rightarrow> (Raised KeyError, s)
              | Some p \<Rightarrow>
                  if pin_input = p
                  then (jsonify [(''success'', JBool True),
                                 (''step'', JInt 1),
                                 (''message'', JStr ''Current PIN verified. Enter new PIN.'')],
                        s\<lparr> pin_change_step := Some 1 \<rparr>)
                  else (jsonify [(''success'', JBool False),
                                 (''message'', JStr ''Incorrect current PIN.'')],
                        s))
           else if step = 1 then
             (if length pin_input = 4 \<and> isdigit pin_input
              then (jsonify [(''success'', JBool True),
                             (''step'', JInt 2),
                             (''message'', JStr ''New PIN entered. Please confirm.'')],
                    s\<lparr> new_pin := Some pin_input, pin_change_step := Some 2 \<rparr>)
              else (jsonify [(''success'', JBool False),
                             (''message'', JStr ''PIN must be exactly 4 digits.'')],
                    s))
           else if step = 2 then
             (if Some pin_input = new_pin s
              then
                (case new_pin s of
                   None \<Rightarrow> (Raised KeyError, s)
                 | Some np \<Rightarrow>
                     (jsonify [(''success'', JBool True),
                               (''step'', JInt 0),
                               (''message'', JStr ''PIN changed successfully!''),
                               (''complete'', JBool True)],
                      s\<lparr> pin := Some np, pin_change_step := Some 0, new_pin := None \<rparr>))
              else (jsonify [(''success'', JBool False),
                             (''step'', JInt 1),
                             (''message'', JStr ''PINs do not match. Enter new PIN again.'')],
                    s\<lparr> pin_change_step := Some 1 \<rparr>))
           else (Raised TypeError, s))"

definition api_transactions :: "session \<Rightarrow> transaction_file \<Rightarrow> outcome" where
  "api_transactions s f =
     (if \<not> truthy (logged_in s) then not_authorized
      else
        let transactions = load_transactions f
        in if truthy (is_admin s)
           then jsonify [(''transactions'', JList (map (\<lambda>tx. JStr (formatted tx)) transactions)),
                         (''count'', JInt (int (length transactions)))]
           else jsonify [(''transactions'', JList (map (\<lambda>tx. JStr (formatted tx)) transactions)),
                         (''count'', JInt (int (length transactions)))])"

definition api_logout :: "session \<Rightarrow> outcome \<times> session" where
  "api_logout s =
     (jsonify [(''success'', JBool True),
               (''message'', JStr ''Thank you for using Secure Bank ATM!'')],
      empty_session)"

definition api_reset_pin_change :: "session \<Rightarrow> outcome \<times> session" where
  "api_reset_pin_change s =
     (jsonify [(''success'', JBool True)],
      s\<lparr> pin_change_step := Some 0, new_pin := None \<rparr>)"

text \<open>The development route; \<open>app_debug\<close> is the value of \<open>app.debug\<close>.\<close>

definition reset_data ::
  "bool \<Rightarrow> session \<Rightarrow> transaction_file \<Rightarrow> outcome \<times> session \<times> transaction_file" where
  "reset_data app_debug s f =
     (if app_debug
      then (jsonify [(''success'', JBool True), (''message'', JStr ''All data reset'')],
            empty_session, Missing)
      else (Response (JObj [(''error'', JStr ''Not available in production'')]) 403, s, f))"

subsection \<open>Sequences of requests\<close>

text \<open>
  A request with the data the view reads from it; a withdrawal also carries the time at
  which it is served. The routes that only read (\<open>/api/balance\<close>,
  \<open>/api/transactions\<close>, \<open>/debug\<close>) leave the session and the file as they are.
\<close>

datatype request =
    Index
  | Login string
  | Balance
  | Withdraw string string
  | ChangePin string
  | Transactions
  | Logout
  | ResetPinChange
  | Debug
  | ResetData

fun handle ::
  "bool \<Rightarrow> session \<times> transaction_file \<Rightarrow> request \<Rightarrow> session \<times> transaction_file" where
  "handle dbg (s, f) Index = (snd (index s), f)"
| "handle dbg (s, f) (Login p) = (snd (api_login p s f), f)"
| "handle dbg (s, f) Balance = (s, f)"
| "handle dbg (s, f) (Withdraw a now) = snd (api_withdraw a now s f)"
| "handle dbg (s, f) (ChangePin p) = (snd (api_change_pin p s), f)"
| "handle dbg (s, f) Transactions = (s, f)"
| "handle dbg (s, f) Logout = (snd (api_logout s), f)"
| "handle dbg (s, f) ResetPinChange = (snd (api_reset_pin_change s), f)"
| "handle dbg (s, f) Debug = (s, f)"
| "handle dbg (s, f) ResetData = snd (reset_data dbg s f)"

text \<open>The state after a sequence of requests of a client that starts without a session.\<close>

definition run :: "bool \<Rightarrow> transaction_file \<Rightarrow> request list \<Rightarrow> session \<times> transaction_file" where
  "run dbg f0 reqs = foldl (handle dbg) (empty_session, f0) reqs"

subsection \<open>Observations used in the statements\<close>

text \<open>What a client reads from a response: a JSON object whose \<open>success\<close> is true.\<close>

definition succeeded :: "outcome \<Rightarrow> bool" where
  "succeeded out =
     (case out of
        Response (JObj kvs) st \<Rightarrow> map_of kvs ''success'' = Some (JBool True)
      | _ \<Rightarrow> False)"

text \<open>A new client after a login with the default PIN.\<close>

definition customer_session :: session where
  "customer_session = snd (api_login DEFAULT_PIN empty_session Missing)"

text \<open>A new client after a login with the admin password.\<close>

definition admin_session :: session where
  "admin_session = snd (api_login ADMIN_PASSWORD empty_session Missing)"

text \<open>A customer who has verified the current PIN and entered \<open>5678\<close> as the new one.\<close>

definition confirming_session :: session where
  "confirming_session =
     fst (run False Missing [Login ''1234'', ChangePin ''1234'', ChangePin ''5678''])"

text \<open>
  The relation between \<open>pin_change_step\<close> and \<open>new_pin\<close> that every request keeps: no
  pending PIN outside the flow, one at step 2, and possibly a stale one at step 1.
\<close>

definition pin_change_consistent :: "session \<Rightarrow> bool" where
  "pin_change_consistent s =
     (case pin_change_step s of
        None \<Rightarrow> new_pin s = None
      | Some n \<Rightarrow> (n = 0 \<and> new_pin s = None) \<or> n = 1 \<or> (n = 2 \<and> new_pin s \<noteq> None))"

text \<open>
  The requests that cannot change the PIN of a session: all but the logout, the data
  reset and the PIN-change requests.
\<close>

fun keeps_pin :: "request \<Rightarrow> bool" where
  "keeps_pin Logout = False"
| "keeps_pin ResetData = False"
| "keeps_pin (ChangePin p) = False"
| "keeps_pin r = True"

text \<open>
  The finite values of binary64: an integer of magnitude below \<open>2^53\<close> times a power of
  two that is at least \<open>2^-1074\<close>, of magnitude below \<open>2^1024\<close>.
\<close>

definition is_binary64 :: "rat \<Rightarrow> bool" where
  "is_binary64 x =
     (\<exists>m k. x = of_int m * pow2 k \<and> \<bar>m\<bar> < 2 ^ 53 \<and> - 1074 \<le> k \<and> \<bar>x\<bar> < pow2 1024)"

text \<open>
  The balance of a session, when set, is a binary64 value between 0 and the starting
  balance.
\<close>

definition balance_in_range :: "session \<Rightarrow> bool" where
  "balance_in_range s =
     (case balance s of
        None \<Rightarrow> True
      | Some b \<Rightarrow>
          (\<exists>x. b = Fin x \<and> is_binary64 x \<and> 0 \<le> x
                \<and> x \<le> 8687021468732621 / 70368744177664))"

section \<open>Properties\<close>

subsection \<open>Rounding to binary64\<close>

text \<open>
  The rounding is the identity on the values of binary64, so the difference of a balance
  below \<open>2^53\<close> and an integer amount that does not exceed it is computed exactly.
\<close>

lemma bit_length_nonneg: "0 \<le> bit_length n"
proof (induction n rule: bit_length.induct)
  case (1 n)
  then show ?case
    by (cases "n \<le> 0") (simp_all add: bit_length.simps [of n])
qed

lemma bit_length_pos: "0 < n \<Longrightarrow> 0 < bit_length n"
  using bit_length_nonneg [of "n div 2"] by (simp add: bit_length.simps [of n])

lemma bit_length_bounds:
  "0 < n \<Longrightarrow> 2 ^ nat (bit_length n - 1) \<le> n \<and> n < 2 ^ nat (bit_length n)"
proof (induction n rule: bit_length.induct)
  case (1 n)
  show ?case
  proof (cases "n = 1")
    case True
    then show ?thesis
      by (simp add: bit_length.simps [of 1] bit_length.simps [of 0])
  next
    case False
    with "1.prems" have h: "0 < n div 2" by simp
    from "1.prems" have n: "\<not> n \<le> 0" by simp
    from "1.IH" [OF n h]
    have ih: "2 ^ nat (bit_length (n div 2) - 1) \<le> n div 2"
      "n div 2 < 2 ^ nat (bit_length (n div 2))" by simp_all
    have bl: "bit_length n = 1 + bit_length (n div 2)"
      using n by (simp add: bit_length.simps [of n])
    have p: "0 < bit_length (n div 2)" by (rule bit_length_pos [OF h])
    have e1: "nat (bit_length n - 1) = Suc (nat (bit_length (n div 2) - 1))"
      using bl p by simp
    have e2: "nat (bit_length n) = Suc (nat (bit_length (n div 2)))"
      using bl p by simp
    have "2 * 2 ^ nat (bit_length (n div 2) - 1) \<le> n"
      using ih(1) by linarith
    moreover have "n < 2 * 2 ^ nat (bit_length (n div 2))"
      using ih(2) by linarith
    ultimately show ?thesis
      by (simp add: e1 e2)
  qed
qed

lemma pow2_powi: "pow2 e = 2 powi e"
  by (simp add: pow2_def power_int_def inverse_eq_divide power_one_over)

lemma pow2_pos: "0 < pow2 e"
  by (simp add: pow2_powi)

lemma pow2_add: "pow2 (a + b) = pow2 a * pow2 b"
  by (simp add: pow2_powi power_int_add)

lemma pow2_less_iff: "pow2 a < pow2 b \<longleftrightarrow> a < b"
proof
  assume h: "pow2 a < pow2 b"
  show "a < b"
  proof (rule ccontr)
    assume "\<not> a < b"
    then have "b \<le> a" by simp
    then have "pow2 b \<le> pow2 a"
      by (simp add: pow2_powi power_int_increasing)
    with h show False by simp
  qed
next
  assume "a < b"
  then show "pow2 a < pow2 b"
    by (simp add: pow2_powi power_int_strict_increasing)
qed

lemma pow2_le_iff: "pow2 a \<le> pow2 b \<longleftrightarrow> a \<le> b"
  using pow2_less_iff [of b a] by (simp add: not_less [symmetric])

lemma pow2_nat: "0 \<le> e \<Longrightarrow> pow2 e = of_int (2 ^ nat e)"
  by (simp add: pow2_def)

lemma floor_log2_bounds:
  assumes "0 < r"
  shows "pow2 (floor_log2 r) \<le> r \<and> r < pow2 (floor_log2 r + 1)"
proof -
  obtain p q where pq: "quotient_of r = (p, q)"
    by (cases "quotient_of r")
  then have q: "0 < q" and r: "r = of_int p / of_int q"
    using quotient_of_denom_pos [OF pq] quotient_of_div [OF pq] by simp_all
  from assms r q have p: "0 < p"
    by (simp add: zero_less_divide_iff)
  define d where "d = bit_length p - bit_length q"
  from bit_length_bounds [OF p]
  have p1: "(2::rat) ^ nat (bit_length p - 1) \<le> of_int p"
    and p2: "of_int p < (2::rat) ^ nat (bit_length p)"
    by (metis of_int_le_iff of_int_numeral of_int_power, metis of_int_less_iff of_int_numeral of_int_power)
  from bit_length_bounds [OF q]
  have q1: "(2::rat) ^ nat (bit_length q - 1) \<le> of_int q"
    and q2: "of_int q < (2::rat) ^ nat (bit_length q)"
    by (metis of_int_le_iff of_int_numeral of_int_power, metis of_int_less_iff of_int_numeral of_int_power)
  have bp: "0 < bit_length p" and bq: "0 < bit_length q"
    using p q by (simp_all add: bit_length_pos)
  have P1: "pow2 (bit_length p - 1) \<le> of_int p" and P2: "of_int p < pow2 (bit_length p)"
    and Q1: "pow2 (bit_length q - 1) \<le> of_int q" and Q2: "of_int q < pow2 (bit_length q)"
    using p1 p2 q1 q2 bp bq by (simp_all add: pow2_def)
  have qpos: "(0::rat) < of_int q" using q by simp
  have up: "r < pow2 (d + 1)"
  proof -
    have "of_int p < pow2 (d + 1) * pow2 (bit_length q - 1)"
      using P2 by (simp add: pow2_add [symmetric] d_def)
    also have "\<dots> \<le> pow2 (d + 1) * of_int q"
      using Q1 pow2_pos [of "d + 1"] by simp
    finally show ?thesis
      using qpos by (simp add: r pos_divide_less_eq)
  qed
  have lo: "pow2 (d - 1) < r"
  proof -
    have "pow2 (d - 1) * of_int q < pow2 (d - 1) * pow2 (bit_length q)"
      using Q2 pow2_pos [of "d - 1"] by simp
    also have "\<dots> = pow2 (bit_length p - 1)"
      by (simp add: pow2_add [symmetric] d_def)
    also have "\<dots> \<le> of_int p" by (rule P1)
    finally show ?thesis
      using qpos by (simp add: r pos_less_divide_eq)
  qed
  have fl: "floor_log2 r = (if pow2 d \<le> r then d else d - 1)"
    by (simp add: floor_log2_def pq d_def Let_def)
  show ?thesis
  proof (cases "pow2 d \<le> r")
    case True
    with up fl show ?thesis by simp
  next
    case False
    with lo fl show ?thesis by simp
  qed
qed

lemma floor_log2_unique:
  assumes "0 < r" and "pow2 e \<le> r" and "r < pow2 (e + 1)"
  shows "floor_log2 r = e"
proof -
  from floor_log2_bounds [OF assms(1)]
  have b: "pow2 (floor_log2 r) \<le> r" "r < pow2 (floor_log2 r + 1)" by simp_all
  from b(1) assms(3) have "pow2 (floor_log2 r) < pow2 (e + 1)" by simp
  then have 1: "floor_log2 r < e + 1" by (simp add: pow2_less_iff)
  from assms(2) b(2) have "pow2 e < pow2 (floor_log2 r + 1)" by simp
  then have 2: "e < floor_log2 r + 1" by (simp add: pow2_less_iff)
  from 1 2 show ?thesis by simp
qed

lemma round_half_even_of_int: "round_half_even (of_int n) = n"
  by (simp add: round_half_even_def)

lemma round_binary64_exact_pos:
  assumes x: "x = of_int m * pow2 k" and m: "0 < m" "m < 2 ^ 53" and k: "- 1074 \<le> k"
    and lim: "x < pow2 1024"
  shows "round_binary64 x = Fin x"
proof -
  have xpos: "0 < x"
    using x m(1) pow2_pos [of k] by simp
  define e where "e = max (floor_log2 x) (- 1022)"
  have kle: "e - 52 \<le> k"
  proof (cases "floor_log2 x \<le> - 1022")
    case True
    then show ?thesis using k by (simp add: e_def)
  next
    case False
    then have ee: "e = floor_log2 x" by (simp add: e_def)
    have "of_int m < (pow2 53 :: rat)"
      using m(2) by (simp add: pow2_def)
    then have "x < pow2 53 * pow2 k"
      using pow2_pos [of k] by (simp add: x)
    then have "x < pow2 (53 + k)" by (simp add: pow2_add)
    moreover have "pow2 (floor_log2 x) \<le> x"
      using floor_log2_bounds [OF xpos] by simp
    ultimately have "pow2 (floor_log2 x) < pow2 (53 + k)" by simp
    then have "floor_log2 x < 53 + k" by (simp add: pow2_less_iff)
    then show ?thesis by (simp add: ee)
  qed
  define j where "j = k - (e - 52)"
  have j: "0 \<le> j" using kle by (simp add: j_def)
  define n where "n = m * 2 ^ nat j"
  have "pow2 k = pow2 j * pow2 (e - 52)"
    by (simp add: pow2_add [symmetric] j_def)
  then have xn: "x = of_int n * pow2 (e - 52)"
    using j by (simp add: x pow2_nat n_def)
  have qn: "pow2 (e - 52) \<noteq> 0"
    using pow2_pos [of "e - 52"] by simp
  have xq: "x / pow2 (e - 52) = of_int n"
    by (subst xn) (simp add: qn)
  have v: "of_int (round_half_even (x / pow2 (e - 52))) * pow2 (e - 52) = x"
    by (simp only: xq round_half_even_of_int xn [symmetric])
  have ne: "x \<noteq> 0" using xpos by simp
  have ax: "\<bar>x\<bar> = x" using xpos by simp
  show ?thesis
    using xpos lim v
    by (simp add: round_binary64_def Let_def ne ax e_def [symmetric] not_le [symmetric])
qed

lemma round_binary64_neg: "round_binary64 (- x) = (case round_binary64 x of
    Fin v \<Rightarrow> Fin (- v) | PInf \<Rightarrow> NInf | NInf \<Rightarrow> PInf | NaN \<Rightarrow> NaN)"
  by (cases "x = 0"; cases "0 < x") (auto simp add: round_binary64_def Let_def)

lemma round_binary64_exact:
  assumes "is_binary64 x"
  shows "round_binary64 x = Fin x"
proof -
  from assms obtain m k where
    h: "x = of_int m * pow2 k" "\<bar>m\<bar> < 2 ^ 53" "- 1074 \<le> k" "\<bar>x\<bar> < pow2 1024"
    unfolding is_binary64_def by blast
  consider "m = 0" | "0 < m" | "m < 0" by linarith
  then show ?thesis
  proof cases
    case 1
    with h(1) show ?thesis by (simp add: round_binary64_def)
  next
    case 2
    with h have "m < 2 ^ 53" and "x < pow2 1024" by simp_all
    from round_binary64_exact_pos [OF h(1) 2 this(1) h(3) this(2)] show ?thesis .
  next
    case 3
    then have a: "0 < - m" and b: "- m < 2 ^ 53" using h(2) by simp_all
    have c: "- x = of_int (- m) * pow2 k" using h(1) by simp
    have d: "- x < pow2 1024" using h(4) by simp
    from round_binary64_exact_pos [OF c a b h(3) d]
    have "round_binary64 (- x) = Fin (- x)" .
    then have "round_binary64 (- (- x)) = Fin x"
      by (simp only: round_binary64_neg [of "- x"]) simp
    then show ?thesis by simp
  qed
qed

lemma is_binary64_of_int:
  assumes "\<bar>a\<bar> < 2 ^ 53"
  shows "is_binary64 (of_int a)"
proof -
  have "\<bar>of_int a :: rat\<bar> < 2 ^ 53"
    using assms by (metis of_int_abs of_int_less_iff of_int_numeral of_int_power)
  also have "(2::rat) ^ 53 < pow2 1024"
    by (simp add: pow2_def)
  finally have "\<bar>of_int a :: rat\<bar> < pow2 1024" .
  then show ?thesis
    unfolding is_binary64_def using assms
    by (intro exI [of _ a] exI [of _ 0]) (simp add: pow2_def)
qed

lemma is_binary64_sub_int:
  assumes b: "is_binary64 x" and small: "x < 2 ^ 53" and a: "0 < a" and le: "of_int a \<le> x"
  shows "is_binary64 (x - of_int a)"
proof -
  from b obtain m k where
    h: "x = of_int m * pow2 k" "\<bar>m\<bar> < 2 ^ 53" "- 1074 \<le> k" "\<bar>x\<bar> < pow2 1024"
    unfolding is_binary64_def by blast
  have "(0::rat) < of_int a" using a by simp
  with le have xpos: "0 < x" by linarith
  have d: "0 \<le> x - of_int a" "x - of_int a < x"
    using le a by simp_all
  have lim: "\<bar>x - of_int a\<bar> < pow2 1024"
    using d h(4) xpos by simp
  show ?thesis
  proof (cases "0 \<le> k")
    case True
    then have xi: "x = of_int (m * 2 ^ nat k)"
      by (simp add: h(1) pow2_nat)
    define X where "X = m * 2 ^ nat k"
    have "of_int X < (2::rat) ^ 53" using small xi by (simp add: X_def)
    then have X53: "X < 2 ^ 53"
      by (metis of_int_less_iff of_int_numeral of_int_power)
    have "(of_int a :: rat) \<le> of_int X" using le xi by (simp add: X_def)
    then have aX: "a \<le> X" by simp
    have "\<bar>X - a\<bar> < 2 ^ 53" using X53 aX a by simp
    from is_binary64_of_int [OF this] show ?thesis
      by (simp add: xi X_def)
  next
    case False
    then have kn: "k < 0" by simp
    define j where "j = nat (- k)"
    have pj: "pow2 k * 2 ^ j = 1"
      using kn by (simp add: j_def pow2_def)
    define m' where "m' = m - a * 2 ^ j"
    have eq: "x - of_int a = of_int m' * pow2 k"
    proof -
      have "of_int m' * pow2 k = of_int m * pow2 k - of_int a * (pow2 k * 2 ^ j)"
        by (simp add: m'_def algebra_simps)
      then show ?thesis by (simp only: pj h(1))
    qed
    have mpos: "0 < m"
      using xpos h(1) pow2_pos [of k] by (simp add: zero_less_mult_iff)
    have "0 \<le> of_int m' * pow2 k" using d(1) eq by simp
    then have m0: "0 \<le> m'"
      using pow2_pos [of k] by (simp add: zero_le_mult_iff)
    have "m' < m" using a by (simp add: m'_def)
    with m0 h(2) mpos have "\<bar>m'\<bar> < 2 ^ 53" by simp
    with eq h(3) lim show ?thesis
      unfolding is_binary64_def by blast
  qed
qed

lemma float_sub_int_exact:
  assumes b: "is_binary64 x" and small: "x < 2 ^ 53" and a: "0 < a" and le: "of_int a \<le> x"
  shows "float_sub_int (Fin x) a = Inr (Fin (x - of_int a))"
proof -
  have "(of_int a :: rat) < 2 ^ 53" using le small by simp
  then have "a < 2 ^ 53"
    by (metis of_int_less_iff of_int_numeral of_int_power)
  with a have "\<bar>a\<bar> < 2 ^ 53" by simp
  then have "round_binary64 (of_int a) = Fin (of_int a)"
    by (intro round_binary64_exact is_binary64_of_int)
  then have fa: "float_of_int a = Inr (Fin (of_int a))"
    by (simp add: float_of_int_def)
  have "round_binary64 (x - of_int a) = Fin (x - of_int a)"
    by (intro round_binary64_exact is_binary64_sub_int assms)
  with fa show ?thesis
    by (simp add: float_sub_int_def)
qed

lemma float_of_int_exact:
  assumes "\<bar>a\<bar> < 2 ^ 53"
  shows "float_of_int a = Inr (Fin (of_int a))"
  using round_binary64_exact [OF is_binary64_of_int [OF assms]]
  by (simp add: float_of_int_def)

lemma pow2_1024_gt: "(2::rat) ^ 53 < pow2 1024"
  by (simp add: pow2_def)

lemma starting_balance_binary64: "is_binary64 (8687021468732621 / 70368744177664)"
proof -
  have a: "(8687021468732621 / 70368744177664 :: rat) = of_int 8687021468732621 * pow2 (- 46)"
    by (simp add: pow2_def)
  have "\<bar>8687021468732621 / 70368744177664 :: rat\<bar> < 2 ^ 53"
    by simp
  then have b: "\<bar>8687021468732621 / 70368744177664 :: rat\<bar> < pow2 1024"
    using pow2_1024_gt by (rule less_trans)
  have c: "\<bar>8687021468732621 :: int\<bar> < 2 ^ 53"
    by simp
  have d: "- 1074 \<le> (- 46 :: int)"
    by simp
  show ?thesis
    unfolding is_binary64_def
    by (rule exI [of _ 8687021468732621], rule exI [of _ "- 46"]) (intro conjI a b c d)
qed

subsection \<open>Concrete sessions and values\<close>

lemma customer_session_eq:
  "customer_session =
     \<lparr> pin = Some ''1234'', balance = Some STARTING_BALANCE, logged_in = Some True,
       is_admin = Some False, pin_change_step = Some 0, new_pin = None \<rparr>"
  by (simp add: customer_session_def api_login_def initialize_session_def empty_session_def
      set_default_def DEFAULT_PIN_def ADMIN_PASSWORD_def load_transactions_def jsonify_def Let_def)

lemma admin_session_eq:
  "admin_session =
     \<lparr> pin = Some ''1234'', balance = Some STARTING_BALANCE, logged_in = Some True,
       is_admin = Some True, pin_change_step = Some 0, new_pin = None \<rparr>"
  by (simp add: admin_session_def api_login_def initialize_session_def empty_session_def
      set_default_def DEFAULT_PIN_def ADMIN_PASSWORD_def jsonify_def Let_def)

lemma confirming_session_eq:
  "confirming_session =
     \<lparr> pin = Some ''1234'', balance = Some STARTING_BALANCE, logged_in = Some True,
       is_admin = Some False, pin_change_step = Some 2, new_pin = Some ''5678'' \<rparr>"
  by (simp add: confirming_session_def run_def api_login_def api_change_pin_def
      initialize_session_def empty_session_def set_default_def DEFAULT_PIN_def
      ADMIN_PASSWORD_def jsonify_def truthy_def isdigit_def char_isdigit_def
      is_ascii_digit_def code_point_def load_transactions_def Let_def)



lemma py_float_inf: "py_float ''inf'' = Inr PInf"
  by code_simp





lemma py_float_50: "py_float ''50'' = Inr (Fin 50)"
  by code_simp

lemma py_float_50_0: "py_float ''50.0'' = Inr (Fin 50)"
  by code_simp

lemma py_float_5e1: "py_float ''5e1'' = Inr (Fin 50)"
  by code_simp


lemma format_50: "format_2f_int 50 = Inr ''50.00''"
  by code_simp

lemma starting_balance_minus_50:
  "float_sub_int STARTING_BALANCE 50 = Inr (Fin (5168584259849421 / 70368744177664))"
  by code_simp


lemma fifty_is_valid:
  "(0::rat) < 50" "of_int \<lfloor>50::rat\<rfloor> = (50::rat)" "\<lfloor>50::rat\<rfloor> mod 10 = 0"
  "\<not> int_gt_float \<lfloor>50::rat\<rfloor> STARTING_BALANCE"
  by (simp_all add: STARTING_BALANCE_def)

text \<open>
  A withdrawal request from the customer session whose amount validates as 50 is
  answered with success.
\<close>

lemma withdraw_validated_50_succeeds:
  assumes "validate_withdrawal amount_str STARTING_BALANCE = Inr (True, Amount 50)"
  shows "succeeded (fst (api_withdraw amount_str now customer_session f))"
  using assms
  by (simp add: api_withdraw_def customer_session_eq truthy_def starting_balance_minus_50
      format_50 add_transaction_def succeeded_def jsonify_def Let_def)

subsection \<open>Withdrawals\<close>

text \<open>
  A withdrawal request either is answered with success or leaves the session and the
  file as they were.
\<close>

lemma api_withdraw_changes_only_on_success:
  "succeeded (fst (api_withdraw amount_str now s f))
   \<or> snd (api_withdraw amount_str now s f) = (s, f)"
  by (auto simp add: api_withdraw_def succeeded_def jsonify_def not_authorized_def
      add_transaction_def float_sub_int_def format_2f_int_def Let_def
      split: sum.splits prod.splits option.splits validation_result.splits)

text \<open>\<open>float\<close> on a string raises nothing but \<open>ValueError\<close>.\<close>

lemma py_float_error: "py_float s = Inl e \<Longrightarrow> e = ValueError"
  by (auto simp add: py_float_def Let_def split: option.splits if_splits)

text \<open>
  Validation lets an exception out exactly when the string is read as plus infinity, and
  the exception is then \<open>OverflowError\<close>.
\<close>

lemma validate_withdrawal_raises_iff:
  "validate_withdrawal amount_str bal = Inl e
   \<longleftrightarrow> py_float amount_str = Inr PInf \<and> e = OverflowError"
proof (cases "py_float amount_str")
  case (Inl e')
  with py_float_error [OF Inl] show ?thesis
    by (simp add: validate_withdrawal_def validate_withdrawal_body_def except_ValueError_def)
next
  case (Inr v)
  then show ?thesis
    by (cases v)
      (auto simp add: validate_withdrawal_def validate_withdrawal_body_def except_ValueError_def)
qed

text \<open>
  When validation answers with a message, the request is answered with \<open>success\<close>
  false and that message, and nothing changes.
\<close>

lemma api_withdraw_validation_failure:
  assumes "truthy (logged_in s)" and "\<not> truthy (is_admin s)" and "balance s = Some b"
    and "validate_withdrawal amount_str b = Inr (False, Message m)"
  shows "api_withdraw amount_str now s f =
           (Response (JObj [(''success'', JBool False), (''message'', JStr m)]) 200, s, f)"
  using assms by (simp add: api_withdraw_def jsonify_def validation_json_def)

text \<open>What validation has checked when it accepts an amount.\<close>

lemma validate_withdrawal_accepted:
  assumes "validate_withdrawal amount_str b = Inr (True, Amount a)"
  shows "0 < a \<and> a mod 10 = 0 \<and> \<not> int_gt_float a b"
proof -
  from assms obtain v where v: "py_float amount_str = Inr v"
    by (cases "py_float amount_str")
      (auto simp add: validate_withdrawal_def validate_withdrawal_body_def except_ValueError_def
        split: py_error.splits)
  from assms v have pos: "\<not> float_le_int v 0"
    by (auto simp add: validate_withdrawal_def validate_withdrawal_body_def except_ValueError_def
        split: if_splits)
  from assms v pos obtain i where i: "int_of_float v = Inr i"
    by (cases "int_of_float v")
      (auto simp add: validate_withdrawal_def validate_withdrawal_body_def except_ValueError_def
        split: py_error.splits)
  from assms v pos i have r: "\<not> float_ne_int v i" "i mod 10 = 0" "\<not> int_gt_float i b" "a = i"
    by (auto simp add: validate_withdrawal_def validate_withdrawal_body_def except_ValueError_def
        split: if_splits)
  from r(1) obtain x where x: "v = Fin x" "x = of_int i"
    by (cases v) auto
  from pos x have "0 < i" by simp
  with r show ?thesis by simp
qed

text \<open>
  With a binary64 balance below \<open>2^53\<close>, an accepted amount is withdrawn: the request
  succeeds and the new balance is the exact difference.
\<close>

lemma api_withdraw_exact:
  assumes auth: "truthy (logged_in s)" "\<not> truthy (is_admin s)"
    and bal: "balance s = Some (Fin x)" "is_binary64 x" "x < 2 ^ 53"
    and v: "validate_withdrawal amount_str (Fin x) = Inr (True, Amount a)"
  shows "succeeded (fst (api_withdraw amount_str now s f))
         \<and> fst (snd (api_withdraw amount_str now s f)) = s\<lparr> balance := Some (Fin (x - of_int a)) \<rparr>
         \<and> 0 \<le> x - of_int a"
proof -
  from validate_withdrawal_accepted [OF v]
  have a: "0 < a" "of_int a \<le> x" by (simp_all add: not_less)
  have sub: "float_sub_int (Fin x) a = Inr (Fin (x - of_int a))"
    by (rule float_sub_int_exact [OF bal(2,3) a])
  have "(of_int a :: rat) < 2 ^ 53" using a(2) bal(3) by simp
  then have "a < 2 ^ 53"
    by (metis of_int_less_iff of_int_numeral of_int_power)
  with a(1) have "\<bar>a\<bar> < 2 ^ 53" by simp
  then have fmt: "format_2f_int a = Inr (format_2f (Fin (of_int a)))"
    by (simp add: format_2f_int_def float_of_int_exact)
  from auth bal(1) v sub fmt a(2) show ?thesis
    by (simp add: api_withdraw_def add_transaction_def succeeded_def jsonify_def Let_def)
qed

text \<open>A success response comes only from the authorised path with an accepted amount.\<close>

lemma api_withdraw_success_inv:
  assumes "succeeded (fst (api_withdraw amount_str now s f))"
  shows "truthy (logged_in s) \<and> \<not> truthy (is_admin s)
         \<and> (\<exists>b a. balance s = Some b
                   \<and> validate_withdrawal amount_str b = Inr (True, Amount a))"
proof -
  have auth: "\<not> (\<not> truthy (logged_in s) \<or> truthy (is_admin s))"
    using assms by - (rule ccontr, simp add: api_withdraw_def succeeded_def not_authorized_def)
  then obtain b where b: "balance s = Some b"
    using assms by (cases "balance s") (simp_all add: api_withdraw_def succeeded_def)
  obtain valid result where v: "validate_withdrawal amount_str b = Inr (valid, result)"
    using assms auth b
    by (cases "validate_withdrawal amount_str b")
      (auto simp add: api_withdraw_def succeeded_def)
  have valid: valid
    using assms auth b v
    by (cases valid) (simp_all add: api_withdraw_def succeeded_def jsonify_def)
  obtain a where a: "result = Amount a"
    using assms auth b v valid
    by (cases result) (simp_all add: api_withdraw_def succeeded_def)
  from auth b v valid a show ?thesis by simp
qed

text \<open>
  C1. For every successful withdrawal from a logged-in session that is not an admin
  session and has balance \<open>b\<close>: validation accepted an amount \<open>a\<close>, the new balance is
  the float difference \<open>b - a\<close>, which is the exact difference whenever \<open>b\<close> is a
  binary64 value below \<open>2^53\<close> (as every balance that a sequence of requests reaches
  is, see \<open>run_balance_in_range\<close>), the session is otherwise unchanged, exactly one
  record is appended to the transactions that the file held, with that amount and with
  \<open>balance_after\<close> equal to the new balance, and the response carries the new balance
  and that record.
\<close>

theorem withdrawal_success:
  assumes "truthy (logged_in s)" and "\<not> truthy (is_admin s)" and "balance s = Some b"
    and "api_withdraw amount_str now s f = (out, s', f')" and "succeeded out"
  shows "\<exists>a b' tx msg.
           validate_withdrawal amount_str b = Inr (True, Amount a)
           \<and> float_sub_int b a = Inr b'
           \<and> (\<forall>x. b = Fin x \<and> is_binary64 x \<and> x < 2 ^ 53 \<longrightarrow> b' = Fin (x - of_int a))
           \<and> s' = s\<lparr> balance := Some b' \<rparr>
           \<and> load_transactions f' = load_transactions f @ [tx]
           \<and> amount tx = a \<and> balance_after tx = b'
           \<and> out = Response (JObj [(''success'', JBool True), (''message'', JStr msg),
                                   (''balance'', JFloat b'),
                                   (''transaction'', transaction_json tx)]) 200"
proof -
  from assms(4,5) have ok: "succeeded (fst (api_withdraw amount_str now s f))"
    by simp
  from api_withdraw_success_inv [OF ok] assms(3) obtain a where
    v: "validate_withdrawal amount_str b = Inr (True, Amount a)"
    by auto
  from ok assms(1,2,3) v obtain b' where sub: "float_sub_int b a = Inr b'"
    by (cases "float_sub_int b a") (simp_all add: api_withdraw_def succeeded_def)
  from ok assms(1,2,3) v sub obtain amt_str where fmt: "format_2f_int a = Inr amt_str"
    by (cases "format_2f_int a")
      (simp_all add: api_withdraw_def add_transaction_def succeeded_def Let_def)
  define tx where "tx = \<lparr> timestamp = now, tx_type = ''withdrawal'', amount = a,
      balance_after = b',
      formatted = now @ '' | '' @ title ''withdrawal'' @ '' '' @ [pound]
        @ amt_str @ '' | Balance '' @ [pound] @ format_2f b' \<rparr>"
  have r: "api_withdraw amount_str now s f =
      (Response (JObj [(''success'', JBool True),
                       (''message'', JStr (''Success! '' @ [pound] @ amt_str @ '' withdrawn.'')),
                       (''balance'', JFloat b'),
                       (''transaction'', transaction_json tx)]) 200,
       s\<lparr> balance := Some b' \<rparr>,
       Stored (load_transactions f @ [tx]))"
    using assms(1,2,3) v sub fmt
    by (simp add: api_withdraw_def add_transaction_def save_transactions_def jsonify_def
        Let_def tx_def)
  have exact: "\<forall>x. b = Fin x \<and> is_binary64 x \<and> x < 2 ^ 53 \<longrightarrow> b' = Fin (x - of_int a)"
  proof (intro allI impI)
    fix x
    assume h: "b = Fin x \<and> is_binary64 x \<and> x < 2 ^ 53"
    from validate_withdrawal_accepted [OF v] h
    have a: "0 < a" "of_int a \<le> x" by (simp_all add: not_less)
    from float_sub_int_exact [of x a] h a sub show "b' = Fin (x - of_int a)"
      by simp
  qed
  from r assms(4) have "out = Response (JObj [(''success'', JBool True),
                       (''message'', JStr (''Success! '' @ [pound] @ amt_str @ '' withdrawn.'')),
                       (''balance'', JFloat b'),
                       (''transaction'', transaction_json tx)]) 200"
    and "s' = s\<lparr> balance := Some b' \<rparr>" and "f' = Stored (load_transactions f @ [tx])"
    by simp_all
  moreover have "amount tx = a" "balance_after tx = b'"
    by (simp_all add: tx_def)
  ultimately show ?thesis
    using v sub exact by (auto simp add: load_transactions_def)
qed

theorem withdrawal_success_witness:
  "truthy (logged_in customer_session) \<and> \<not> truthy (is_admin customer_session)
   \<and> balance customer_session = Some STARTING_BALANCE
   \<and> succeeded (fst (api_withdraw ''50'' ''2024-01-01 10:00:00'' customer_session Missing))
   \<and> is_binary64 (8687021468732621 / 70368744177664)
   \<and> (8687021468732621 / 70368744177664 :: rat) < 2 ^ 53
   \<and> balance (fst (snd (api_withdraw ''50'' ''2024-01-01 10:00:00'' customer_session Missing)))
       = Some (Fin (8687021468732621 / 70368744177664 - 50))
   \<and> (\<exists>tx. load_transactions
              (snd (snd (api_withdraw ''50'' ''2024-01-01 10:00:00'' customer_session Missing)))
              = [tx]
            \<and> amount tx = 50
            \<and> balance_after tx = Fin (8687021468732621 / 70368744177664 - 50))"
proof -
  let ?r = "api_withdraw ''50'' ''2024-01-01 10:00:00'' customer_session Missing"
  let ?x = "8687021468732621 / 70368744177664 :: rat"
  have h: "truthy (logged_in customer_session)" "\<not> truthy (is_admin customer_session)"
    "balance customer_session = Some STARTING_BALANCE"
    by (simp_all add: customer_session_eq truthy_def)
  have e: "?r = (fst ?r, fst (snd ?r), snd (snd ?r))"
    by simp
  have "\<not> float_le_int (Fin 50) 0" and "\<not> float_ne_int (Fin 50) 50"
    by simp_all
  then have v: "validate_withdrawal ''50'' STARTING_BALANCE = Inr (True, Amount 50)"
    by (simp add: validate_withdrawal_def validate_withdrawal_body_def except_ValueError_def
        py_float_50 STARTING_BALANCE_def)
  have ok: "succeeded (fst ?r)"
    by (rule withdraw_validated_50_succeeds [OF v])
  have small: "?x < 2 ^ 53"
    by simp
  from withdrawal_success [OF h e ok]
  obtain a b' tx msg where
    w: "validate_withdrawal ''50'' STARTING_BALANCE = Inr (True, Amount a)"
      "\<forall>x. STARTING_BALANCE = Fin x \<and> is_binary64 x \<and> x < 2 ^ 53 \<longrightarrow> b' = Fin (x - of_int a)"
      "fst (snd ?r) = customer_session\<lparr> balance := Some b' \<rparr>"
      "load_transactions (snd (snd ?r)) = load_transactions Missing @ [tx]"
      "amount tx = a" "balance_after tx = b'"
    by blast
  from w(1) v have a: "a = 50" by simp
  have "STARTING_BALANCE = Fin ?x \<and> is_binary64 ?x \<and> ?x < 2 ^ 53"
    using starting_balance_binary64 small by (simp add: STARTING_BALANCE_def)
  with w(2) have "b' = Fin (?x - of_int a)"
    by blast
  with a have b: "b' = Fin (?x - 50)" by simp
  from w(3) b
  have "balance (fst (snd ?r)) = Some (Fin (?x - 50))"
    by simp
  moreover from w(4,5,6) a b
  have "\<exists>tx. load_transactions (snd (snd ?r)) = [tx] \<and> amount tx = 50
             \<and> balance_after tx = Fin (?x - 50)"
    by (simp add: load_transactions_def)
  ultimately show ?thesis
    using h ok starting_balance_binary64 small by simp
qed




text \<open>
  C10. Validation takes every string that \<open>float\<close> reads: when the value read is a
  positive integer, a multiple of 10 and not above the balance, validation returns that
  integer, whatever the form of the string, and the withdrawal from a logged-in customer
  session (with a binary64 balance below \<open>2^53\<close>) succeeds and takes that value off the
  balance.
\<close>

theorem validate_withdrawal_accepts_float_literals:
  assumes "py_float amount_str = Inr (Fin r)" and "0 < r" and "of_int \<lfloor>r\<rfloor> = r"
    and "\<lfloor>r\<rfloor> mod 10 = 0" and "\<not> int_gt_float \<lfloor>r\<rfloor> bal"
  shows "validate_withdrawal amount_str bal = Inr (True, Amount \<lfloor>r\<rfloor>)
         \<and> (\<forall>s x now f. truthy (logged_in s) \<and> \<not> truthy (is_admin s)
                \<and> balance s = Some bal \<and> bal = Fin x \<and> is_binary64 x \<and> x < 2 ^ 53 \<longrightarrow>
              succeeded (fst (api_withdraw amount_str now s f))
              \<and> balance (fst (snd (api_withdraw amount_str now s f))) = Some (Fin (x - r)))"
proof -
  have "r = of_int \<lfloor>r\<rfloor>"
    using assms(3) by (simp del: of_int_floor_cancel)
  then have "\<not> float_le_int (Fin r) 0" and "\<not> float_ne_int (Fin r) \<lfloor>r\<rfloor>"
    using assms(2) by auto
  then have v: "validate_withdrawal amount_str bal = Inr (True, Amount \<lfloor>r\<rfloor>)"
    using assms(1,2,4,5)
    by (simp add: validate_withdrawal_def validate_withdrawal_body_def except_ValueError_def
        del: float_le_int.simps float_ne_int.simps)
  have "succeeded (fst (api_withdraw amount_str now s f))
        \<and> balance (fst (snd (api_withdraw amount_str now s f))) = Some (Fin (x - r))"
    if h: "truthy (logged_in s) \<and> \<not> truthy (is_admin s)
           \<and> balance s = Some bal \<and> bal = Fin x \<and> is_binary64 x \<and> x < 2 ^ 53"
    for s x now f
  proof -
    from h have h': "truthy (logged_in s)" "\<not> truthy (is_admin s)" "balance s = Some (Fin x)"
      "is_binary64 x" "x < 2 ^ 53" "bal = Fin x"
      by simp_all
    from api_withdraw_exact [OF h'(1-5) v [unfolded h'(6)], of now f] assms(3)
    show ?thesis by simp
  qed
  with v show ?thesis by blast
qed

theorem validate_withdrawal_accepts_float_literals_witness:
  "py_float ''50.0'' = Inr (Fin 50) \<and> py_float ''5e1'' = Inr (Fin 50)
   \<and> validate_withdrawal ''50.0'' STARTING_BALANCE = Inr (True, Amount 50)
   \<and> validate_withdrawal ''5e1'' STARTING_BALANCE = Inr (True, Amount 50)
   \<and> succeeded (fst (api_withdraw ''50.0'' ''2024-01-01 10:00:00'' customer_session Missing))
   \<and> succeeded (fst (api_withdraw ''5e1'' ''2024-01-01 10:00:00'' customer_session Missing))
   \<and> balance (fst (snd (api_withdraw ''5e1'' ''2024-01-01 10:00:00'' customer_session Missing)))
       = Some (Fin (8687021468732621 / 70368744177664 - 50))"
proof -
  let ?x = "8687021468732621 / 70368744177664 :: rat"
  note t1 = validate_withdrawal_accepts_float_literals [OF py_float_50_0 fifty_is_valid]
  note t2 = validate_withdrawal_accepts_float_literals [OF py_float_5e1 fifty_is_valid]
  have c: "truthy (logged_in customer_session) \<and> \<not> truthy (is_admin customer_session)
        \<and> balance customer_session = Some STARTING_BALANCE \<and> STARTING_BALANCE = Fin ?x
        \<and> is_binary64 ?x \<and> ?x < 2 ^ 53"
    using starting_balance_binary64
    by (simp add: customer_session_eq truthy_def STARTING_BALANCE_def)
  have a: "validate_withdrawal ''50.0'' STARTING_BALANCE = Inr (True, Amount 50)"
    using t1 by simp
  have b: "validate_withdrawal ''5e1'' STARTING_BALANCE = Inr (True, Amount 50)"
    using t2 by simp
  from t1 c
  have a': "succeeded (fst (api_withdraw ''50.0'' ''2024-01-01 10:00:00'' customer_session Missing))"
    by blast
  from t2 c
  have b': "succeeded (fst (api_withdraw ''5e1'' ''2024-01-01 10:00:00'' customer_session Missing))
      \<and> balance (fst (snd (api_withdraw ''5e1'' ''2024-01-01 10:00:00'' customer_session Missing)))
          = Some (Fin (?x - 50))"
    by blast
  from a b a' b' show ?thesis
    by (simp add: py_float_50_0 py_float_5e1)
qed

text \<open>
  C6. The string \<open>inf\<close> is read by \<open>float\<close> as plus infinity; \<open>int\<close> of it raises
  \<open>OverflowError\<close>, which \<open>validate_withdrawal\<close> does not catch, so the request ends in
  the exception and not in a response with \<open>success\<close> false. The session and the file
  are as before.
\<close>

theorem withdraw_inf_raises:
  "api_withdraw ''inf'' now customer_session f = (Raised OverflowError, customer_session, f)"
  by (simp add: customer_session_eq api_withdraw_def truthy_def py_float_inf
      validate_withdrawal_def validate_withdrawal_body_def except_ValueError_def)

theorem withdraw_inf_raises_witness:
  "fst (api_withdraw ''inf'' ''2024-01-01 10:00:00'' customer_session Missing)
     = Raised OverflowError
   \<and> \<not> succeeded (fst (api_withdraw ''inf'' ''2024-01-01 10:00:00'' customer_session Missing))
   \<and> snd (api_withdraw ''inf'' ''2024-01-01 10:00:00'' customer_session Missing)
       = (customer_session, Missing)"
  using withdraw_inf_raises [of "''2024-01-01 10:00:00''" Missing]
  by (simp add: succeeded_def)

text \<open>
  C7. In a session whose \<open>is_admin\<close> is true, the balance query and the withdrawal
  answer 401 \<open>Not authorized\<close>, and the withdrawal leaves the session and the file as
  they are; a login with the admin password gives such a session.
\<close>

theorem admin_never_authorized:
  "(truthy (is_admin s) \<longrightarrow>
      api_balance s = Response (JObj [(''error'', JStr ''Not authorized'')]) 401
      \<and> api_withdraw amount_str now s f
          = (Response (JObj [(''error'', JStr ''Not authorized'')]) 401, s, f))
   \<and> truthy (is_admin (snd (api_login ADMIN_PASSWORD s0 f0)))"
  by (simp add: api_balance_def api_withdraw_def not_authorized_def api_login_def truthy_def
      Let_def)

theorem admin_never_authorized_witness:
  "truthy (is_admin admin_session)
   \<and> api_balance admin_session = Response (JObj [(''error'', JStr ''Not authorized'')]) 401
   \<and> api_withdraw ''50'' ''2024-01-01 10:00:00'' admin_session Missing
       = (Response (JObj [(''error'', JStr ''Not authorized'')]) 401, admin_session, Missing)"
proof -
  have h: "truthy (is_admin admin_session)"
    by (simp add: admin_session_eq truthy_def)
  with admin_never_authorized [of admin_session "''50''" "''2024-01-01 10:00:00''" Missing]
  show ?thesis by simp
qed

subsection \<open>Login\<close>

text \<open>
  C8. A login attempt whose credential is neither the admin password nor the PIN of
  the session is answered with one fixed message, whatever the credential and the PIN
  are, and the session is only initialised: the truth values of \<open>logged_in\<close> and
  \<open>is_admin\<close> are as before, and a key that was set keeps its value.
\<close>

theorem login_failure_generic:
  assumes "pin_attempt \<noteq> ADMIN_PASSWORD"
    and "pin_attempt \<noteq> (case pin s of None \<Rightarrow> DEFAULT_PIN | Some p \<Rightarrow> p)"
  shows "api_login pin_attempt s f =
           (Response (JObj [(''success'', JBool False),
                            (''message'',
                             JStr ''Incorrect PIN or password. Please try again.'')]) 200,
            initialize_session s)
         \<and> truthy (logged_in (snd (api_login pin_attempt s f))) = truthy (logged_in s)
         \<and> truthy (is_admin (snd (api_login pin_attempt s f))) = truthy (is_admin s)
         \<and> (logged_in s \<noteq> None \<longrightarrow> logged_in (snd (api_login pin_attempt s f)) = logged_in s)
         \<and> (is_admin s \<noteq> None \<longrightarrow> is_admin (snd (api_login pin_attempt s f)) = is_admin s)"
  using assms
  by (auto simp add: api_login_def initialize_session_def set_default_def jsonify_def truthy_def
      Let_def split: option.splits)

theorem login_failure_generic_witness:
  "''0000'' \<noteq> ADMIN_PASSWORD
   \<and> ''0000'' \<noteq> (case pin customer_session of None \<Rightarrow> DEFAULT_PIN | Some p \<Rightarrow> p)
   \<and> fst (api_login ''0000'' customer_session Missing)
       = Response (JObj [(''success'', JBool False),
                         (''message'', JStr ''Incorrect PIN or password. Please try again.'')]) 200
   \<and> logged_in (snd (api_login ''0000'' customer_session Missing)) = Some True
   \<and> is_admin (snd (api_login ''0000'' customer_session Missing)) = Some False"
proof -
  have h: "''0000'' \<noteq> ADMIN_PASSWORD"
    "''0000'' \<noteq> (case pin customer_session of None \<Rightarrow> DEFAULT_PIN | Some p \<Rightarrow> p)"
    by (simp_all add: ADMIN_PASSWORD_def customer_session_eq)
  have p: "logged_in customer_session = Some True" "is_admin customer_session = Some False"
    by (simp_all add: customer_session_eq)
  from login_failure_generic [OF h, of Missing] h p show ?thesis
    by (simp add: initialize_session_def set_default_def)
qed

subsection \<open>The PIN-change flow\<close>

text \<open>
  C3 (as amended). In a logged-in customer session at step 2, a confirmation that
  differs from the pending new PIN is answered with the failure
  \<open>PINs do not match\<close>, the step becomes 1, and nothing else in the session changes:
  the pending new PIN stays as it was.
\<close>

theorem confirm_mismatch_keeps_pending:
  assumes "truthy (logged_in s)" and "\<not> truthy (is_admin s)"
    and "pin_change_step s = Some 2" and "Some pin_input \<noteq> new_pin s"
  shows "api_change_pin pin_input s =
           (Response (JObj [(''success'', JBool False), (''step'', JInt 1),
                            (''message'', JStr ''PINs do not match. Enter new PIN again.'')]) 200,
            s\<lparr> pin_change_step := Some 1 \<rparr>)
         \<and> pin_change_step (snd (api_change_pin pin_input s)) = Some 1
         \<and> new_pin (snd (api_change_pin pin_input s)) = new_pin s"
  using assms by (simp add: api_change_pin_def jsonify_def Let_def)

theorem confirm_mismatch_keeps_pending_witness:
  "truthy (logged_in confirming_session) \<and> \<not> truthy (is_admin confirming_session)
   \<and> pin_change_step confirming_session = Some 2
   \<and> Some ''5679'' \<noteq> new_pin confirming_session
   \<and> pin_change_step (snd (api_change_pin ''5679'' confirming_session)) = Some 1
   \<and> new_pin (snd (api_change_pin ''5679'' confirming_session)) = Some ''5678''"
proof -
  have h: "truthy (logged_in confirming_session)" "\<not> truthy (is_admin confirming_session)"
    "pin_change_step confirming_session = Some 2" "Some ''5679'' \<noteq> new_pin confirming_session"
    by (simp_all add: confirming_session_eq truthy_def)
  from confirm_mismatch_keeps_pending [OF h] h show ?thesis
    by (simp add: confirming_session_eq)
qed

text \<open>
  The specification has the pending new PIN cleared here; after a confirmation that does
  not match it is still set.
\<close>

theorem confirm_mismatch_counterexample:
  "pin_change_step confirming_session = Some 2
   \<and> new_pin confirming_session = Some ''5678''
   \<and> pin_change_step (snd (api_change_pin ''5679'' confirming_session)) = Some 1
   \<and> new_pin (snd (api_change_pin ''5679'' confirming_session)) \<noteq> None"
  by (simp add: confirming_session_eq api_change_pin_def truthy_def jsonify_def)

text \<open>Every request keeps the relation between the step and the pending new PIN.\<close>

lemma initialize_session_consistent:
  "pin_change_consistent s \<Longrightarrow> pin_change_consistent (initialize_session s)"
  by (auto simp add: pin_change_consistent_def initialize_session_def set_default_def
      split: option.splits)

lemma api_login_consistent:
  "pin_change_consistent s \<Longrightarrow> pin_change_consistent (snd (api_login p s f))"
  using initialize_session_consistent [of s]
  by (auto simp add: api_login_def pin_change_consistent_def Let_def split: option.splits)

lemma api_withdraw_consistent:
  "pin_change_consistent s \<Longrightarrow> pin_change_consistent (fst (snd (api_withdraw a now s f)))"
  by (auto simp add: api_withdraw_def pin_change_consistent_def Let_def
      split: option.splits sum.splits prod.splits validation_result.splits)

lemma api_change_pin_consistent:
  "pin_change_consistent s \<Longrightarrow> pin_change_consistent (snd (api_change_pin p s))"
  by (auto simp add: api_change_pin_def pin_change_consistent_def Let_def split: option.splits)

lemma handle_consistent:
  "pin_change_consistent (fst st) \<Longrightarrow> pin_change_consistent (fst (handle dbg st r))"
proof (cases st)
  case (Pair s f)
  assume "pin_change_consistent (fst st)"
  with Pair have inv: "pin_change_consistent s" by simp
  show ?thesis
  proof (cases r)
    case Index
    with Pair inv show ?thesis by (simp add: index_def initialize_session_consistent)
  next
    case (Login p)
    with Pair inv show ?thesis by (simp add: api_login_consistent)
  next
    case (Withdraw a now)
    with Pair inv show ?thesis by (simp add: api_withdraw_consistent)
  next
    case (ChangePin p)
    with Pair inv show ?thesis by (simp add: api_change_pin_consistent)
  next
    case Logout
    with Pair show ?thesis
      by (simp add: api_logout_def empty_session_def pin_change_consistent_def)
  next
    case ResetPinChange
    with Pair show ?thesis
      by (simp add: api_reset_pin_change_def pin_change_consistent_def)
  next
    case ResetData
    with Pair inv show ?thesis
      by (cases dbg) (simp_all add: reset_data_def empty_session_def pin_change_consistent_def)
  qed (use Pair inv in simp_all)
qed

lemma foldl_handle_consistent:
  "pin_change_consistent (fst st) \<Longrightarrow> pin_change_consistent (fst (foldl (handle dbg) st reqs))"
  by (induction reqs arbitrary: st) (simp_all add: handle_consistent)

lemma run_consistent: "pin_change_consistent (fst (run dbg f0 reqs))"
  unfolding run_def
  by (rule foldl_handle_consistent) (simp add: pin_change_consistent_def empty_session_def)

text \<open>
  C4 (as amended). In the session reached by any sequence of requests from a client
  without a session: if a pending new PIN is set then the step is 1 or 2, and if the step
  is 2 then a pending new PIN is set.
\<close>

theorem pending_pin_only_during_change:
  "(new_pin (fst (run dbg f0 reqs)) \<noteq> None \<longrightarrow>
      pin_change_step (fst (run dbg f0 reqs)) = Some 1
      \<or> pin_change_step (fst (run dbg f0 reqs)) = Some 2)
   \<and> (pin_change_step (fst (run dbg f0 reqs)) = Some 2 \<longrightarrow>
      new_pin (fst (run dbg f0 reqs)) \<noteq> None)"
  using run_consistent [of dbg f0 reqs]
  by (auto simp add: pin_change_consistent_def split: option.splits)

theorem pending_pin_only_during_change_witness:
  "new_pin (fst (run False Missing [Login ''1234'', ChangePin ''1234'', ChangePin ''5678'']))
     = Some ''5678''
   \<and> pin_change_step
        (fst (run False Missing [Login ''1234'', ChangePin ''1234'', ChangePin ''5678'']))
     = Some 2"
  using pending_pin_only_during_change
    [of False Missing "[Login ''1234'', ChangePin ''1234'', ChangePin ''5678'']"]
    confirming_session_eq
  by (simp add: confirming_session_def)

text \<open>
  The specification has a pending new PIN exactly when the step is not 0; once the
  current PIN is verified the step is 1 and no pending new PIN is set.
\<close>

theorem pending_pin_iff_counterexample:
  "pin_change_step (fst (run False Missing [Login ''1234'', ChangePin ''1234''])) = Some 1
   \<and> new_pin (fst (run False Missing [Login ''1234'', ChangePin ''1234''])) = None"
  by (simp add: run_def api_login_def api_change_pin_def
      initialize_session_def empty_session_def set_default_def DEFAULT_PIN_def
      ADMIN_PASSWORD_def jsonify_def truthy_def load_transactions_def Let_def)

text \<open>
  A login with a credential other than the admin password succeeds exactly when the
  credential is the PIN of the session, and the requests that satisfy \<open>keeps_pin\<close>
  leave that PIN as it is.
\<close>

lemma login_succeeds_iff:
  assumes "pin s = Some p" and "c \<noteq> ADMIN_PASSWORD"
  shows "succeeded (fst (api_login c s f)) = (c = p)"
  using assms
  by (auto simp add: api_login_def succeeded_def jsonify_def initialize_session_def
      set_default_def Let_def split: option.splits)

lemma api_login_keeps_pin: "pin s = Some p \<Longrightarrow> pin (snd (api_login c s f)) = Some p"
  by (auto simp add: api_login_def initialize_session_def set_default_def Let_def
      split: option.splits)

lemma api_withdraw_keeps_pin:
  "pin (fst (snd (api_withdraw a now s f))) = pin s"
  by (auto simp add: api_withdraw_def Let_def
      split: option.splits sum.splits prod.splits validation_result.splits)

lemma handle_keeps_pin:
  assumes "pin (fst st) = Some p" and "keeps_pin r"
  shows "pin (fst (handle dbg st r)) = Some p"
proof (cases st)
  case (Pair s f)
  with assms(1) have p: "pin s = Some p" by simp
  show ?thesis
  proof (cases r)
    case Index
    with Pair p show ?thesis
      by (simp add: index_def initialize_session_def set_default_def)
  next
    case (Login c)
    with Pair p show ?thesis by (simp add: api_login_keeps_pin)
  next
    case (Withdraw a now)
    with Pair p show ?thesis by (simp add: api_withdraw_keeps_pin)
  next
    case ResetPinChange
    with Pair p show ?thesis by (simp add: api_reset_pin_change_def)
  qed (use Pair p assms(2) in simp_all)
qed

lemma foldl_handle_keeps_pin:
  "pin (fst st) = Some p \<Longrightarrow> list_all keeps_pin reqs
   \<Longrightarrow> pin (fst (foldl (handle dbg) st reqs)) = Some p"
  by (induction reqs arbitrary: st) (simp_all add: handle_keeps_pin)

text \<open>
  C5 (as amended). In a logged-in customer session at step 2, a confirmation equal to
  the pending new PIN sets the PIN to it, sets the step to 0, removes the pending new PIN
  and is answered with success, step 0 and \<open>complete\<close> true. From then on, in the same
  session, directly or after any requests other than a logout, a data reset or a
  PIN-change request, a login with a credential other than the admin password succeeds
  exactly when the credential is the new PIN.
\<close>

theorem confirm_match_commits:
  assumes "truthy (logged_in s)" and "\<not> truthy (is_admin s)"
    and "pin_change_step s = Some 2" and "new_pin s = Some pin_input"
  shows "api_change_pin pin_input s =
           (Response (JObj [(''success'', JBool True), (''step'', JInt 0),
                            (''message'', JStr ''PIN changed successfully!''),
                            (''complete'', JBool True)]) 200,
            s\<lparr> pin := Some pin_input, pin_change_step := Some 0, new_pin := None \<rparr>)
         \<and> (\<forall>c f. c \<noteq> ADMIN_PASSWORD \<longrightarrow>
               succeeded (fst (api_login c (snd (api_change_pin pin_input s)) f))
                 = (c = pin_input))
         \<and> (\<forall>c dbg f reqs f'. c \<noteq> ADMIN_PASSWORD \<and> list_all keeps_pin reqs \<longrightarrow>
               succeeded
                 (fst (api_login c
                        (fst (foldl (handle dbg) (snd (api_change_pin pin_input s), f) reqs))
                        f'))
                 = (c = pin_input))"
proof -
  have c: "api_change_pin pin_input s =
           (Response (JObj [(''success'', JBool True), (''step'', JInt 0),
                            (''message'', JStr ''PIN changed successfully!''),
                            (''complete'', JBool True)]) 200,
            s\<lparr> pin := Some pin_input, pin_change_step := Some 0, new_pin := None \<rparr>)"
    using assms by (simp add: api_change_pin_def jsonify_def Let_def)
  then have p: "pin (snd (api_change_pin pin_input s)) = Some pin_input"
    by simp
  have l: "succeeded (fst (api_login c (snd (api_change_pin pin_input s)) f)) = (c = pin_input)"
    if "c \<noteq> ADMIN_PASSWORD" for c f
    by (rule login_succeeds_iff [OF p that])
  have m: "succeeded
             (fst (api_login c
                    (fst (foldl (handle dbg) (snd (api_change_pin pin_input s), f) reqs)) f'))
           = (c = pin_input)"
    if "c \<noteq> ADMIN_PASSWORD \<and> list_all keeps_pin reqs" for c dbg f reqs f'
  proof -
    from that have a: "c \<noteq> ADMIN_PASSWORD" and k: "list_all keeps_pin reqs" by simp_all
    have "pin (fst (snd (api_change_pin pin_input s), f)) = Some pin_input"
      using p by simp
    from foldl_handle_keeps_pin [OF this k]
    have "pin (fst (foldl (handle dbg) (snd (api_change_pin pin_input s), f) reqs))
            = Some pin_input" .
    from login_succeeds_iff [OF this a] show ?thesis .
  qed
  from c l m show ?thesis by blast
qed

theorem confirm_match_commits_witness:
  "truthy (logged_in confirming_session) \<and> \<not> truthy (is_admin confirming_session)
   \<and> pin_change_step confirming_session = Some 2
   \<and> new_pin confirming_session = Some ''5678''
   \<and> pin (snd (api_change_pin ''5678'' confirming_session)) = Some ''5678''
   \<and> succeeded (fst (api_login ''5678'' (snd (api_change_pin ''5678'' confirming_session)) Missing))
   \<and> \<not> succeeded (fst (api_login ''1234'' (snd (api_change_pin ''5678'' confirming_session)) Missing))
   \<and> list_all keeps_pin [Balance, Login ''0000'', ResetPinChange]
   \<and> succeeded
        (fst (api_login ''5678''
               (fst (foldl (handle False)
                      (snd (api_change_pin ''5678'' confirming_session), Missing)
                      [Balance, Login ''0000'', ResetPinChange]))
               Missing))
   \<and> \<not> succeeded
        (fst (api_login ''1234''
               (fst (foldl (handle False)
                      (snd (api_change_pin ''5678'' confirming_session), Missing)
                      [Balance, Login ''0000'', ResetPinChange]))
               Missing))"
proof -
  have h: "truthy (logged_in confirming_session)" "\<not> truthy (is_admin confirming_session)"
    "pin_change_step confirming_session = Some 2" "new_pin confirming_session = Some ''5678''"
    by (simp_all add: confirming_session_eq truthy_def)
  have a: "''5678'' \<noteq> ADMIN_PASSWORD" "''1234'' \<noteq> ADMIN_PASSWORD"
    by (simp_all add: ADMIN_PASSWORD_def)
  have k: "list_all keeps_pin [Balance, Login ''0000'', ResetPinChange]"
    by simp
  note t = confirm_match_commits [OF h]
  note c = t [THEN conjunct1]
  note l = t [THEN conjunct2, THEN conjunct1, rule_format]
  note m = t [THEN conjunct2, THEN conjunct2, rule_format]
  have "pin (snd (api_change_pin ''5678'' confirming_session)) = Some ''5678''"
    by (simp add: c)
  moreover have "succeeded
      (fst (api_login ''5678'' (snd (api_change_pin ''5678'' confirming_session)) Missing))"
    using l [OF a(1), of Missing] by simp
  moreover have "\<not> succeeded
      (fst (api_login ''1234'' (snd (api_change_pin ''5678'' confirming_session)) Missing))"
    using l [OF a(2), of Missing] by simp
  moreover have "succeeded
        (fst (api_login ''5678''
               (fst (foldl (handle False)
                      (snd (api_change_pin ''5678'' confirming_session), Missing)
                      [Balance, Login ''0000'', ResetPinChange]))
               Missing))"
    using m [of "''5678''" "[Balance, Login ''0000'', ResetPinChange]" False Missing Missing] a(1) k
    by simp
  moreover have "\<not> succeeded
        (fst (api_login ''1234''
               (fst (foldl (handle False)
                      (snd (api_change_pin ''5678'' confirming_session), Missing)
                      [Balance, Login ''0000'', ResetPinChange]))
               Missing))"
    using m [of "''1234''" "[Balance, Login ''0000'', ResetPinChange]" False Missing Missing] a(2) k
    by simp
  ultimately show ?thesis
    using h k by simp
qed

text \<open>
  The specification has every later login require the new PIN; a logout clears the
  session, the next login initialises the PIN to the default, and then the new PIN is
  refused and the default one accepted.
\<close>

theorem login_after_logout_counterexample:
  "pin (snd (api_change_pin ''5678'' confirming_session)) = Some ''5678''
   \<and> \<not> succeeded
        (fst (api_login ''5678''
               (snd (api_logout (snd (api_change_pin ''5678'' confirming_session)))) Missing))
   \<and> succeeded
        (fst (api_login ''1234''
               (snd (api_logout (snd (api_change_pin ''5678'' confirming_session)))) Missing))"
  by (simp add: confirming_session_eq api_change_pin_def truthy_def jsonify_def api_logout_def
      api_login_def initialize_session_def empty_session_def set_default_def DEFAULT_PIN_def
      ADMIN_PASSWORD_def STARTING_BALANCE_def load_transactions_def succeeded_def Let_def)

subsection \<open>The balance over sequences of requests\<close>

text \<open>
  Every request keeps the balance, when set, a binary64 value between 0 and the starting
  balance.
\<close>

lemma initialize_session_balance:
  assumes "balance_in_range s"
  shows "balance_in_range (initialize_session s)"
proof (cases "balance s")
  case None
  have "\<exists>x. STARTING_BALANCE = Fin x \<and> is_binary64 x \<and> 0 \<le> x
            \<and> x \<le> 8687021468732621 / 70368744177664"
    unfolding STARTING_BALANCE_def
    by (intro exI [of _ "8687021468732621 / 70368744177664"] conjI refl
        starting_balance_binary64) simp_all
  with None show ?thesis
    by (simp add: balance_in_range_def initialize_session_def set_default_def)
next
  case (Some b)
  with assms show ?thesis
    by (simp add: balance_in_range_def initialize_session_def set_default_def)
qed

lemma api_login_balance:
  "balance_in_range s \<Longrightarrow> balance_in_range (snd (api_login p s f))"
  using initialize_session_balance [of s]
  by (auto simp add: api_login_def balance_in_range_def Let_def split: option.splits)

lemma api_change_pin_balance:
  "balance_in_range s \<Longrightarrow> balance_in_range (snd (api_change_pin p s))"
  by (auto simp add: api_change_pin_def balance_in_range_def Let_def split: option.splits)

lemma api_withdraw_balance:
  assumes "balance_in_range s"
  shows "balance_in_range (fst (snd (api_withdraw a now s f)))"
proof (cases "succeeded (fst (api_withdraw a now s f))")
  case False
  with api_withdraw_changes_only_on_success [of a now s f] assms show ?thesis
    by simp
next
  case True
  from api_withdraw_success_inv [OF True] obtain b amt where
    auth: "truthy (logged_in s)" "\<not> truthy (is_admin s)"
    and b: "balance s = Some b"
    and v: "validate_withdrawal a b = Inr (True, Amount amt)"
    by blast
  from b assms obtain x where x: "b = Fin x" "is_binary64 x" "0 \<le> x"
    "x \<le> 8687021468732621 / 70368744177664"
    by (auto simp add: balance_in_range_def)
  from x(4) have small: "x < 2 ^ 53" by simp
  from validate_withdrawal_accepted [OF v] x(1)
  have a: "0 < amt" "of_int amt \<le> x" by (simp_all add: not_less)
  from api_withdraw_exact [OF auth b [unfolded x(1)] x(2) small v [unfolded x(1)]]
  have e: "fst (snd (api_withdraw a now s f)) = s\<lparr> balance := Some (Fin (x - of_int amt)) \<rparr>"
    and n: "0 \<le> x - of_int amt" by simp_all
  have "is_binary64 (x - of_int amt)"
    by (rule is_binary64_sub_int [OF x(2) small a])
  moreover have "x - of_int amt \<le> 8687021468732621 / 70368744177664"
    using a(1) x(4) by simp
  ultimately show ?thesis
    using n by (simp add: e balance_in_range_def)
qed

lemma handle_balance:
  "balance_in_range (fst st) \<Longrightarrow> balance_in_range (fst (handle dbg st r))"
proof (cases st)
  case (Pair s f)
  assume "balance_in_range (fst st)"
  with Pair have inv: "balance_in_range s" by simp
  show ?thesis
  proof (cases r)
    case Index
    with Pair inv show ?thesis by (simp add: index_def initialize_session_balance)
  next
    case (Login p)
    with Pair inv show ?thesis by (simp add: api_login_balance)
  next
    case (Withdraw a now)
    with Pair inv show ?thesis by (simp add: api_withdraw_balance)
  next
    case (ChangePin p)
    with Pair inv show ?thesis by (simp add: api_change_pin_balance)
  next
    case Logout
    with Pair show ?thesis
      by (simp add: api_logout_def empty_session_def balance_in_range_def)
  next
    case ResetPinChange
    with Pair inv show ?thesis
      by (simp add: api_reset_pin_change_def balance_in_range_def)
  next
    case ResetData
    with Pair inv show ?thesis
      by (cases dbg) (simp_all add: reset_data_def empty_session_def balance_in_range_def)
  qed (use Pair inv in simp_all)
qed

lemma foldl_handle_balance:
  "balance_in_range (fst st) \<Longrightarrow> balance_in_range (fst (foldl (handle dbg) st reqs))"
  by (induction reqs arbitrary: st) (simp_all add: handle_balance)

lemma run_balance_in_range: "balance_in_range (fst (run dbg f0 reqs))"
  unfolding run_def
  by (rule foldl_handle_balance) (simp add: balance_in_range_def empty_session_def)

subsection \<open>Reset\<close>

text \<open>
  C9. The reset, in any session whatever, sets the step to 0, removes the pending new
  PIN, changes nothing else and is answered with success.
\<close>

theorem reset_pin_change_unconditional:
  "api_reset_pin_change s =
     (Response (JObj [(''success'', JBool True)]) 200,
      s\<lparr> pin_change_step := Some 0, new_pin := None \<rparr>)
   \<and> pin_change_step (snd (api_reset_pin_change s)) = Some 0
   \<and> new_pin (snd (api_reset_pin_change s)) = None
   \<and> succeeded (fst (api_reset_pin_change s))"
  by (simp add: api_reset_pin_change_def jsonify_def succeeded_def)

theorem reset_pin_change_unconditional_witness:
  "pin_change_step confirming_session = Some 2
   \<and> new_pin confirming_session = Some ''5678''
   \<and> pin_change_step (snd (api_reset_pin_change confirming_session)) = Some 0
   \<and> new_pin (snd (api_reset_pin_change confirming_session)) = None
   \<and> \<not> truthy (logged_in empty_session)
   \<and> pin_change_step (snd (api_reset_pin_change empty_session)) = Some 0
   \<and> new_pin (snd (api_reset_pin_change empty_session)) = None
   \<and> succeeded (fst (api_reset_pin_change empty_session))"
  using reset_pin_change_unconditional [of confirming_session]
    reset_pin_change_unconditional [of empty_session]
  by (simp add: confirming_session_eq empty_session_def truthy_def succeeded_def)

end
